theory Spec2Isabelle
  imports Complex_Main
begin

section \<open>JavaScript values and strings\<close>

text \<open>
  The scripts under \<^verbatim>\<open>fitness/js\<close> work on values parsed from JSON and on
  JavaScript strings. A string is a \<^typ>\<open>string\<close>: each \<^typ>\<open>char\<close> stands for the UTF-16
  code unit of the same number, so the text covered is the range U+0000 to U+00FF. A JSON
  number carries a rational; the code only ever asks whether a number is zero. An object
  is the association list of its own properties, read with \<^const>\<open>map_of\<close>.
\<close>

datatype jsval =
    JUndefined
  | JNull
  | JBool bool
  | JNum rat
  | JStr string
  | JArr "jsval list"
  | JObj "(string \<times> jsval) list"

text \<open>A thrown value: every throw site of the scripts, and every rejection of
  \<^verbatim>\<open>fetch\<close> and \<^verbatim>\<open>response.json\<close>, produces an Error object with a name and a
  message.\<close>

datatype js_error = JsError (error_name: string) (error_message: string)

definition TypeError :: "string \<Rightarrow> js_error" where
  "TypeError msg = JsError ''TypeError'' msg"

definition Error :: "string \<Rightarrow> js_error" where
  "Error msg = JsError ''Error'' msg"

text \<open>\<^verbatim>\<open>!v\<close> is the negation of \<open>truthy v\<close>.\<close>

fun truthy :: "jsval \<Rightarrow> bool" where
  "truthy JUndefined = False"
| "truthy JNull = False"
| "truthy (JBool b) = b"
| "truthy (JNum n) = (n \<noteq> 0)"
| "truthy (JStr s) = (s \<noteq> [])"
| "truthy (JArr xs) = True"
| "truthy (JObj kvs) = True"

fun typeof :: "jsval \<Rightarrow> string" where
  "typeof JUndefined = ''undefined''"
| "typeof JNull = ''object''"
| "typeof (JBool b) = ''boolean''"
| "typeof (JNum n) = ''number''"
| "typeof (JStr s) = ''string''"
| "typeof (JArr xs) = ''object''"
| "typeof (JObj kvs) = ''object''"

subsection \<open>String operations\<close>

text \<open>White space removed by \<^verbatim>\<open>String.prototype.trim\<close>, within U+0000 to U+00FF: tab,
  line feed, vertical tab, form feed, carriage return, space and no-break space.\<close>

definition is_white_space :: "char \<Rightarrow> bool" where
  "is_white_space c = ((of_char c :: nat) \<in> {9, 10, 11, 12, 13, 32, 160})"

definition trim :: "string \<Rightarrow> string" where
  "trim s = rev (dropWhile is_white_space (rev (dropWhile is_white_space s)))"

text \<open>\<^verbatim>\<open>toLowerCase\<close> within U+0000 to U+00FF: A to Z, and the accented capitals U+00C0
  to U+00DE except the multiplication sign U+00D7, move up by 32.\<close>

definition lower_char :: "char \<Rightarrow> char" where
  "lower_char c =
     (let n = (of_char c :: nat)
      in if (65 \<le> n \<and> n \<le> 90) \<or> (192 \<le> n \<and> n \<le> 222 \<and> n \<noteq> 215)
         then char_of (n + 32) else c)"

definition toLowerCase :: "string \<Rightarrow> string" where
  "toLowerCase s = map lower_char s"

fun starts_with :: "string \<Rightarrow> string \<Rightarrow> bool" where
  "starts_with s [] = True"
| "starts_with [] (c # t) = False"
| "starts_with (d # s) (c # t) = (d = c \<and> starts_with s t)"

text \<open>\<^verbatim>\<open>s.includes(t)\<close>: \<open>t\<close> occurs in \<open>s\<close> as a contiguous substring.\<close>

fun str_includes :: "string \<Rightarrow> string \<Rightarrow> bool" where
  "str_includes [] t = (t = [])"
| "str_includes (c # s) t = (starts_with (c # s) t \<or> str_includes s t)"

fun digit_char :: "nat \<Rightarrow> char" where
  "digit_char n = char_of (48 + n)"

text \<open>The decimal text of a non-negative integer, as string interpolation prints it.\<close>

function string_of_nat :: "nat \<Rightarrow> string" where
  "string_of_nat n =
     (if n < 10 then [digit_char n] else string_of_nat (n div 10) @ [digit_char (n mod 10)])"
  by pat_completeness auto
termination
  by (relation "measure id") auto

declare string_of_nat.simps [simp del]

subsection \<open>Property access\<close>

text \<open>
  \<^verbatim>\<open>v.hasOwnProperty(field)\<close> is an ordinary method call: the property
  \<^verbatim>\<open>hasOwnProperty\<close> is looked up on \<open>v\<close> first. An object parsed from JSON that has an
  own property of that name shadows \<^verbatim>\<open>Object.prototype.hasOwnProperty\<close> with a value
  that is not a function, and the call throws a TypeError. An array owns \<^verbatim>\<open>length\<close> and
  its indices, a string likewise.
\<close>

fun hasOwnProperty :: "jsval \<Rightarrow> string \<Rightarrow> js_error + bool" where
  "hasOwnProperty (JObj kvs) f =
     (case map_of kvs ''hasOwnProperty'' of
        Some shadow \<Rightarrow> Inl (TypeError ''classData.hasOwnProperty is not a function'')
      | None \<Rightarrow> Inr (map_of kvs f \<noteq> None))"
| "hasOwnProperty (JArr xs) f =
     Inr (f = ''length'' \<or> f \<in> set (map string_of_nat [0..<length xs]))"
| "hasOwnProperty (JStr s) f =
     Inr (f = ''length'' \<or> f \<in> set (map string_of_nat [0..<length s]))"
| "hasOwnProperty (JBool b) f = Inr False"
| "hasOwnProperty (JNum n) f = Inr False"
| "hasOwnProperty JNull f = Inl (TypeError ''Cannot read properties of null'')"
| "hasOwnProperty JUndefined f = Inl (TypeError ''Cannot read properties of undefined'')"

text \<open>
  \<^verbatim>\<open>v[field]\<close> for the field names the scripts read (\<^verbatim>\<open>name\<close>, \<^verbatim>\<open>type\<close>,
  \<^verbatim>\<open>duration\<close>, \<^verbatim>\<open>level\<close>, \<^verbatim>\<open>trainer\<close>): none of them is inherited from a
  prototype, so a value without such an own property gives \<^verbatim>\<open>undefined\<close>; reading a
  property of \<^verbatim>\<open>null\<close> or \<^verbatim>\<open>undefined\<close> throws.
\<close>

fun get_property :: "jsval \<Rightarrow> string \<Rightarrow> js_error + jsval" where
  "get_property (JObj kvs) f =
     Inr (case map_of kvs f of Some v \<Rightarrow> v | None \<Rightarrow> JUndefined)"
| "get_property JNull f = Inl (TypeError ''Cannot read properties of null'')"
| "get_property JUndefined f = Inl (TypeError ''Cannot read properties of undefined'')"
| "get_property v f = Inr JUndefined"

text \<open>\<^verbatim>\<open>v.toLowerCase()\<close>: only a string has the method; on any other value the call
  throws (a JSON value stored under the key \<^verbatim>\<open>toLowerCase\<close> is never a function).\<close>

fun call_toLowerCase :: "jsval \<Rightarrow> js_error + string" where
  "call_toLowerCase (JStr s) = Inr (toLowerCase s)"
| "call_toLowerCase v = Inl (TypeError ''toLowerCase is not a function'')"

text \<open>\<^verbatim>\<open>Array.prototype.every\<close> and \<^verbatim>\<open>Array.prototype.filter\<close> with a callback that may
  throw: the elements are visited in order and the first exception ends the call.\<close>

fun every :: "('a \<Rightarrow> js_error + bool) \<Rightarrow> 'a list \<Rightarrow> js_error + bool" where
  "every p [] = Inr True"
| "every p (x # xs) =
     (case p x of Inl e \<Rightarrow> Inl e | Inr b \<Rightarrow> if b then every p xs else Inr False)"

fun array_filter :: "('a \<Rightarrow> js_error + bool) \<Rightarrow> 'a list \<Rightarrow> js_error + 'a list" where
  "array_filter p [] = Inr []"
| "array_filter p (x # xs) =
     (case p x of
        Inl e \<Rightarrow> Inl e
      | Inr b \<Rightarrow>
          (case array_filter p xs of
             Inl e \<Rightarrow> Inl e
           | Inr ys \<Rightarrow> Inr (if b then x # ys else ys)))"

section \<open>fetch.js: validation\<close>

definition requiredFields :: "string list" where
  "requiredFields = [''name'', ''type'', ''duration'', ''level'', ''trainer'']"

definition field_ok :: "jsval \<Rightarrow> string \<Rightarrow> js_error + bool" where
  "field_ok classData field =
     (case hasOwnProperty classData field of
        Inl e \<Rightarrow> Inl e
      | Inr False \<Rightarrow> Inr False
      | Inr True \<Rightarrow>
          (case get_property classData field of
             Inl e \<Rightarrow> Inl e
           | Inr (JStr s) \<Rightarrow> Inr (trim s \<noteq> [])
           | Inr other \<Rightarrow> Inr False))"

definition isValidClass :: "jsval \<Rightarrow> js_error + bool" where
  "isValidClass classData =
     (if \<not> truthy classData \<or> typeof classData \<noteq> ''object'' then Inr False
      else every (field_ok classData) requiredFields)"

section \<open>Effects: the network, timers and the console\<close>

text \<open>
  One call of \<^verbatim>\<open>fetchWithTimeout\<close> ends in one of three ways: no response arrives
  within the timeout, so the timer aborts the request and \<^verbatim>\<open>fetch\<close> rejects with the
  browser's \<^verbatim>\<open>AbortError\<close> (whose message text is the browser's); \<^verbatim>\<open>fetch\<close> rejects by
  itself (a network failure); or a response arrives.
\<close>

record response =
  status :: nat
  content_type :: "string option"
  body :: "js_error + jsval"

text \<open>\<^verbatim>\<open>response.ok\<close> is true exactly for a status from 200 to 299; \<open>content_type\<close> is
  what \<^verbatim>\<open>response.headers.get('content-type')\<close> returns (\<^verbatim>\<open>null\<close> without the header);
  \<open>body\<close> is how \<^verbatim>\<open>response.json()\<close> settles: rejected with an error, or resolved with
  the parsed value.\<close>

definition ok :: "response \<Rightarrow> bool" where
  "ok r = (200 \<le> status r \<and> status r \<le> 299)"

datatype fetch_outcome =
    NoResponse string
  | FetchFails js_error
  | Responds response

datatype console_entry =
    Warn string
  | Err string
  | ErrWith string js_error

text \<open>The observable state of a run: how many requests were issued, the delays handed
  to \<^verbatim>\<open>setTimeout\<close> between attempts (oldest first), and the console output. The network
  is a function giving the outcome of the \<open>i\<close>-th request (counted from 0).\<close>

record io =
  fetches :: nat
  waits :: "int list"
  console :: "console_entry list"

type_synonym network = "nat \<Rightarrow> fetch_outcome"

definition start :: io where
  "start = \<lparr>fetches = 0, waits = [], console = []\<rparr>"

text \<open>A network given by the outcomes of its first requests and the outcome of every
  later one.\<close>

definition script :: "fetch_outcome list \<Rightarrow> fetch_outcome \<Rightarrow> network" where
  "script outcomes later i = (if i < length outcomes then outcomes ! i else later)"

section \<open>fetch.js: configuration, fetch with timeout, retry\<close>

definition dataPath :: string where "dataPath = ''data/classes.json''"
definition maxRetries :: int where "maxRetries = 3"
definition retryDelay :: int where "retryDelay = 1000"
definition timeout :: int where "timeout = 5000"

definition fetchWithTimeout :: "fetch_outcome \<Rightarrow> js_error + response" where
  "fetchWithTimeout outcome =
     (case outcome of
        NoResponse msg \<Rightarrow> Inl (JsError ''AbortError'' msg)
      | FetchFails e \<Rightarrow> Inl e
      | Responds r \<Rightarrow> Inr r)"

text \<open>\<^verbatim>\<open>retry(fn, retries, delay)\<close>: \<open>fn\<close> is an effectful closure, here a function on
  the state. The recursion ends because \<open>retries\<close> decreases while it is positive.\<close>

function retry ::
  "(io \<Rightarrow> (js_error + 'a) \<times> io) \<Rightarrow> int \<Rightarrow> int \<Rightarrow> io \<Rightarrow> (js_error + 'a) \<times> io" where
  "retry fn retries delay s =
     (case fn s of
        (Inr v, s') \<Rightarrow> (Inr v, s')
      | (Inl error, s') \<Rightarrow>
          if retries \<le> 0 then (Inl error, s')
          else retry fn (retries - 1) (delay * 2) (s'\<lparr>waits := waits s' @ [delay]\<rparr>))"
  by pat_completeness auto
termination
  by (relation "measure (\<lambda>(fn, retries, delay, s). nat retries)") auto

declare retry.simps [simp del]

section \<open>fetch.js: validateClasses and getClasses\<close>

definition validateClasses :: "jsval \<Rightarrow> io \<Rightarrow> (js_error + jsval list) \<times> io" where
  "validateClasses classes s =
     (case classes of
        JArr elems \<Rightarrow>
          (case array_filter isValidClass elems of
             Inl e \<Rightarrow> (Inl e, s)
           | Inr validClasses \<Rightarrow>
               if length validClasses = 0
               then (Inl (Error ''No valid classes found in data''), s)
               else if length validClasses < length elems
               then (Inr validClasses,
                     s\<lparr>console := console s @
                        [Warn (string_of_nat (length elems - length validClasses)
                               @ '' invalid classes were filtered out'')]\<rparr>)
               else (Inr validClasses, s))
      | other \<Rightarrow> (Inl (Error ''Invalid data format: expected an array''), s))"

text \<open>The closure that \<^verbatim>\<open>getClasses\<close> passes to \<^verbatim>\<open>retry\<close>: one request and the
  checks on its response.\<close>

definition attempt :: "network \<Rightarrow> io \<Rightarrow> (js_error + jsval list) \<times> io" where
  "attempt net s =
     (let s1 = s\<lparr>fetches := fetches s + 1\<rparr> in
      case fetchWithTimeout (net (fetches s)) of
        Inl e \<Rightarrow> (Inl e, s1)
      | Inr r \<Rightarrow>
          if \<not> ok r
          then (Inl (Error (''HTTP error! status: '' @ string_of_nat (status r))), s1)
          else
            (case content_type r of
               None \<Rightarrow> (Inl (Error ''Invalid content type: expected JSON''), s1)
             | Some contentType \<Rightarrow>
                 if contentType = [] \<or> \<not> str_includes contentType ''application/json''
                 then (Inl (Error ''Invalid content type: expected JSON''), s1)
                 else
                   (case body r of
                      Inl e \<Rightarrow> (Inl e, s1)
                    | Inr data \<Rightarrow> validateClasses data s1)))"

text \<open>The messages of the \<^verbatim>\<open>catch\<close> block of \<^verbatim>\<open>getClasses\<close>.\<close>

definition diagnostic :: "js_error \<Rightarrow> string" where
  "diagnostic error =
     (if error_name error = ''AbortError''
      then ''Request timeout: The server took too long to respond''
      else if str_includes (error_message error) ''HTTP error''
      then ''Server error: Unable to fetch data''
      else if str_includes (error_message error) ''JSON''
      then ''Data format error: Invalid JSON received''
      else ''Network error: Please check your connection'')"

text \<open>\<^verbatim>\<open>getClasses\<close> settles with a value, or would reject with an error (\<open>Inl\<close>) if
  anything escaped its \<^verbatim>\<open>try\<close>/\<^verbatim>\<open>catch\<close>.\<close>

definition getClasses :: "network \<Rightarrow> io \<Rightarrow> (js_error + jsval list) \<times> io" where
  "getClasses net s =
     (case retry (attempt net) maxRetries retryDelay s of
        (Inr data, s') \<Rightarrow> (Inr data, s')
      | (Inl error, s') \<Rightarrow>
          (Inr [],
           s'\<lparr>console := console s' @
              [ErrWith ''Error fetching classes:'' error, Err (diagnostic error)]\<rparr>))"

section \<open>fetch.js: filters\<close>

text \<open>\<^verbatim>\<open>classes.filter(callback)\<close> on a value that may not be an array: only an array has
  the method.\<close>

definition call_filter :: "(jsval \<Rightarrow> js_error + bool) \<Rightarrow> jsval \<Rightarrow> js_error + jsval" where
  "call_filter callback classes =
     (case classes of
        JArr elems \<Rightarrow>
          (case array_filter callback elems of Inl e \<Rightarrow> Inl e | Inr kept \<Rightarrow> Inr (JArr kept))
      | other \<Rightarrow> Inl (TypeError ''classes.filter is not a function''))"

text \<open>\<^verbatim>\<open>classData[field].toLowerCase() === wanted.toLowerCase()\<close>, evaluated left to
  right.\<close>

definition field_equals :: "string \<Rightarrow> jsval \<Rightarrow> jsval \<Rightarrow> js_error + bool" where
  "field_equals field wanted classData =
     (case get_property classData field of
        Inl e \<Rightarrow> Inl e
      | Inr v \<Rightarrow>
          (case call_toLowerCase v of
             Inl e \<Rightarrow> Inl e
           | Inr a \<Rightarrow>
               (case call_toLowerCase wanted of
                  Inl e \<Rightarrow> Inl e
                | Inr b \<Rightarrow> Inr (a = b))))"

definition filterByType :: "jsval \<Rightarrow> jsval \<Rightarrow> js_error + jsval" where
  "filterByType classes type =
     (if \<not> truthy type \<or> type = JStr ''all'' then Inr classes
      else call_filter (field_equals ''type'' type) classes)"

definition filterByLevel :: "jsval \<Rightarrow> jsval \<Rightarrow> js_error + jsval" where
  "filterByLevel classes level =
     (if \<not> truthy level \<or> level = JStr ''all'' then Inr classes
      else call_filter (field_equals ''level'' level) classes)"

definition filterByTrainer :: "jsval \<Rightarrow> jsval \<Rightarrow> js_error + jsval" where
  "filterByTrainer classes trainer =
     (if \<not> truthy trainer \<or> trainer = JStr ''all'' then Inr classes
      else call_filter (field_equals ''trainer'' trainer) classes)"

text \<open>\<^verbatim>\<open>classData[field].toLowerCase().includes(searchTerm)\<close>.\<close>

definition field_includes :: "string \<Rightarrow> string \<Rightarrow> jsval \<Rightarrow> js_error + bool" where
  "field_includes field searchTerm classData =
     (case get_property classData field of
        Inl e \<Rightarrow> Inl e
      | Inr v \<Rightarrow>
          (case call_toLowerCase v of
             Inl e \<Rightarrow> Inl e
           | Inr a \<Rightarrow> Inr (str_includes a searchTerm)))"

definition search_matches :: "string \<Rightarrow> jsval \<Rightarrow> js_error + bool" where
  "search_matches searchTerm classData =
     (case field_includes ''name'' searchTerm classData of
        Inl e \<Rightarrow> Inl e
      | Inr True \<Rightarrow> Inr True
      | Inr False \<Rightarrow>
          (case field_includes ''type'' searchTerm classData of
             Inl e \<Rightarrow> Inl e
           | Inr True \<Rightarrow> Inr True
           | Inr False \<Rightarrow> field_includes ''trainer'' searchTerm classData))"

definition searchClasses :: "jsval \<Rightarrow> jsval \<Rightarrow> js_error + jsval" where
  "searchClasses classes query =
     (if \<not> truthy query then Inr classes
      else
        (case query of
           JStr q \<Rightarrow>
             if trim q = [] then Inr classes
             else call_filter (search_matches (trim (toLowerCase q))) classes
         | other \<Rightarrow> Inl (TypeError ''query.trim is not a function'')))"

section \<open>storage.js: local storage and the recent-classes list\<close>

text \<open>
  \<^verbatim>\<open>localStorage\<close> holds text under each key. \<open>Text v\<close> is the text
  \<^verbatim>\<open>JSON.stringify(v)\<close>; \<open>NotJson t\<close> is a text that \<^verbatim>\<open>JSON.parse\<close> rejects.
  Reading \<open>Text v\<close> back gives \<^verbatim>\<open>JSON.parse(JSON.stringify(v))\<close>: inside an array
  \<^verbatim>\<open>undefined\<close> becomes \<^verbatim>\<open>null\<close>, inside an object a property with the value
  \<^verbatim>\<open>undefined\<close> is dropped.
\<close>

datatype stored = Text jsval | NotJson string

fun json_roundtrip :: "jsval \<Rightarrow> jsval" where
  "json_roundtrip (JArr xs) =
     JArr (map (\<lambda>x. if x = JUndefined then JNull else json_roundtrip x) xs)"
| "json_roundtrip (JObj kvs) =
     JObj (map (\<lambda>kv. (fst kv, json_roundtrip (snd kv)))
            (filter (\<lambda>kv. snd kv \<noteq> JUndefined) kvs))"
| "json_roundtrip v = v"

text \<open>\<^verbatim>\<open>JSON.stringify(undefined)\<close> is \<^verbatim>\<open>undefined\<close>, which \<^verbatim>\<open>localStorage.setItem\<close>
  stores as the text \<^verbatim>\<open>undefined\<close>.\<close>

definition stringify :: "jsval \<Rightarrow> stored" where
  "stringify v = (if v = JUndefined then NotJson ''undefined'' else Text v)"

text \<open>
  The browser's side of the store: \<open>available\<close> says whether the test write and removal
  of \<^verbatim>\<open>isLocalStorageAvailable\<close> succeed, \<open>accepts key value\<close> whether
  \<^verbatim>\<open>localStorage.setItem\<close> takes the text of \<open>value\<close> under \<open>key\<close> (it throws when the
  quota is exceeded), \<open>items\<close> is the content.
\<close>

record storage =
  available :: bool
  accepts :: "string \<Rightarrow> jsval \<Rightarrow> bool"
  items :: "string \<Rightarrow> stored option"
  log :: "console_entry list"

definition recentClasses :: string where
  "recentClasses = ''fitness_recent_classes''"

definition MAX_RECENT_ITEMS :: nat where
  "MAX_RECENT_ITEMS = 10"

definition isLocalStorageAvailable :: "storage \<Rightarrow> bool \<times> storage" where
  "isLocalStorageAvailable st =
     (if available st
      then (True, st\<lparr>items := (items st)(''__storage_test__'' := None)\<rparr>)
      else (False, st\<lparr>log := log st @ [Warn ''localStorage is not available:'']\<rparr>))"

definition setItem :: "string \<Rightarrow> jsval \<Rightarrow> storage \<Rightarrow> bool \<times> storage" where
  "setItem key v st =
     (case isLocalStorageAvailable st of
        (False, st1) \<Rightarrow>
          (False,
           st1\<lparr>log := log st1 @ [Warn ''localStorage not available, data will not persist'']\<rparr>)
      | (True, st1) \<Rightarrow>
          if accepts st1 key v
          then (True, st1\<lparr>items := (items st1)(key \<mapsto> stringify v)\<rparr>)
          else (False, st1\<lparr>log := log st1 @ [Err ''Error saving to localStorage:'']\<rparr>))"

definition getItem :: "string \<Rightarrow> jsval \<Rightarrow> storage \<Rightarrow> jsval \<times> storage" where
  "getItem key defaultValue st =
     (case isLocalStorageAvailable st of
        (False, st1) \<Rightarrow> (defaultValue, st1)
      | (True, st1) \<Rightarrow>
          (case items st1 key of
             None \<Rightarrow> (defaultValue, st1)
           | Some (Text v) \<Rightarrow> (json_roundtrip v, st1)
           | Some (NotJson t) \<Rightarrow>
               (defaultValue,
                st1\<lparr>log := log st1 @ [Err ''Error reading from localStorage:'']\<rparr>)))"

text \<open>\<^verbatim>\<open>addRecentClass\<close> returns nothing; it throws when the stored value is not an
  array, since only an array has \<^verbatim>\<open>filter\<close>.\<close>

definition addRecentClass :: "jsval \<Rightarrow> storage \<Rightarrow> (js_error + unit) \<times> storage" where
  "addRecentClass className st =
     (if \<not> truthy className \<or> typeof className \<noteq> ''string'' then (Inr (), st)
      else
        (case getItem recentClasses (JArr []) st of
           (JArr stored_list, st1) \<Rightarrow>
             (let removed = filter (\<lambda>item. item \<noteq> className) stored_list;
                  added = className # removed;
                  recent = (if length added > MAX_RECENT_ITEMS
                            then take MAX_RECENT_ITEMS added else added)
              in (Inr (), snd (setItem recentClasses (JArr recent) st1)))
         | (other, st1) \<Rightarrow> (Inl (TypeError ''recent.filter is not a function''), st1)))"

text \<open>\<^verbatim>\<open>getRecentClasses\<close> with its default limit is the stored list as the scripts read
  it back.\<close>

definition stored_recent :: "storage \<Rightarrow> jsval" where
  "stored_recent st = fst (getItem recentClasses (JArr []) st)"

section \<open>Notions of the specification\<close>

text \<open>
  The Record shape in the specification's words: a mapping that has each of the required
  keys, each with a text value that is not empty and not white space only.
\<close>

definition record_shape :: "jsval \<Rightarrow> bool" where
  "record_shape v =
     (case v of
        JObj kvs \<Rightarrow>
          list_all (\<lambda>field. case map_of kvs field of
                               Some (JStr s) \<Rightarrow> s \<noteq> [] \<and> \<not> list_all is_white_space s
                             | Some other \<Rightarrow> False
                             | None \<Rightarrow> False) requiredFields
      | other \<Rightarrow> False)"

definition shadows_hasOwnProperty :: "jsval \<Rightarrow> bool" where
  "shadows_hasOwnProperty v =
     (case v of JObj kvs \<Rightarrow> map_of kvs ''hasOwnProperty'' \<noteq> None | other \<Rightarrow> False)"

text \<open>The parsed body is a sequence.\<close>

definition is_sequence :: "jsval \<Rightarrow> bool" where
  "is_sequence v = (case v of JArr xs \<Rightarrow> True | other \<Rightarrow> False)"

text \<open>The request ends with a response of a 2xx status, declared as JSON, whose body
  parses to \<open>v\<close>.\<close>

definition json_response :: "fetch_outcome \<Rightarrow> jsval \<Rightarrow> bool" where
  "json_response outcome v =
     (case outcome of
        Responds r \<Rightarrow>
          ok r \<and>
          (case content_type r of
             Some ct \<Rightarrow> str_includes ct ''application/json''
           | None \<Rightarrow> False) \<and>
          body r = Inr v
      | other \<Rightarrow> False)"

text \<open>The first \<open>k\<close> delays of a backoff that starts at \<open>d\<close> and doubles.\<close>

definition backoff :: "int \<Rightarrow> nat \<Rightarrow> int list" where
  "backoff d k = map (\<lambda>i. d * 2 ^ i) [0..<k]"

text \<open>A timeout (no response within the timeout) or a response with a non-2xx status.\<close>

definition transient_failure :: "fetch_outcome \<Rightarrow> bool" where
  "transient_failure outcome =
     (case outcome of
        NoResponse msg \<Rightarrow> True
      | Responds r \<Rightarrow> \<not> ok r
      | FetchFails e \<Rightarrow> False)"

text \<open>A response with status 200, declared as JSON, whose body parses to \<open>v\<close>.\<close>

definition json_ok :: "jsval \<Rightarrow> fetch_outcome" where
  "json_ok v = Responds \<lparr>status = 200, content_type = Some ''application/json'', body = Inr v\<rparr>"

section \<open>Sample data\<close>

definition yoga_class :: jsval where
  "yoga_class = JObj [(''name'', JStr ''Morning Yoga''), (''type'', JStr ''Yoga''),
     (''duration'', JStr ''60 min''), (''level'', JStr ''Beginner''), (''trainer'', JStr ''Ana'')]"

definition spin_class :: jsval where
  "spin_class = JObj [(''name'', JStr ''Spin''), (''type'', JStr ''Cardio''),
     (''duration'', JStr ''45 min''), (''level'', JStr ''Advanced''), (''trainer'', JStr ''Luis'')]"

definition unfinished_class :: jsval where
  "unfinished_class = JObj [(''name'', JStr ''Pilates''), (''type'', JStr ''  '')]"

definition shadowing_entry :: jsval where
  "shadowing_entry = JObj [(''hasOwnProperty'', JNum 1)]"

definition timed_out :: fetch_outcome where
  "timed_out = NoResponse ''The user aborted a request.''"

definition http_error :: "nat \<Rightarrow> fetch_outcome" where
  "http_error code = Responds \<lparr>status = code, content_type = Some ''text/html'',
     body = Inl (JsError ''SyntaxError'' ''Unexpected token < in JSON at position 0'')\<rparr>"

text \<open>A working store that holds \<open>item\<close> under the recent-classes key and nothing else.\<close>

definition storage_holding :: "stored option \<Rightarrow> storage" where
  "storage_holding item =
     \<lparr>available = True, accepts = (\<lambda>key v. True),
      items = (\<lambda>key. if key = recentClasses then item else None), log = []\<rparr>"

section \<open>Validation: the code against the Record shape\<close>

lemma trim_Nil_iff: "trim s = [] \<longleftrightarrow> list_all is_white_space s"
proof -
  have "dropWhile is_white_space s \<noteq> [] \<Longrightarrow> \<not> is_white_space (hd (dropWhile is_white_space s))"
    by (rule hd_dropWhile)
  then have "(\<forall>c\<in>set (dropWhile is_white_space s). is_white_space c) \<longleftrightarrow> dropWhile is_white_space s = []"
    by (metis hd_in_set list.set(1) empty_iff)
  then show ?thesis
    by (simp add: trim_def list_all_iff)
qed

lemma string_of_nat_digits: "c \<in> set (string_of_nat n) \<Longrightarrow> (of_char c :: nat) \<in> {48..57}"
proof (induction n rule: string_of_nat.induct)
  case (1 n)
  show ?case
  proof (cases "n < 10")
    case True
    with "1.prems" show ?thesis by (simp add: string_of_nat.simps [of n])
  next
    case False
    have "n mod 10 < 10" by simp
    with False "1.prems" "1.IH" show ?thesis
      by (auto simp add: string_of_nat.simps [of n])
  qed
qed

lemma required_not_index: "f \<in> set requiredFields \<Longrightarrow> f \<noteq> ''length'' \<and> f \<notin> set (map string_of_nat ns)"
proof -
  assume f: "f \<in> set requiredFields"
  have "\<exists>c\<in>set f. (of_char c :: nat) \<notin> {48..57}"
    using f by (auto simp: requiredFields_def)
  then have "f \<notin> set (map string_of_nat ns)"
    using string_of_nat_digits by (metis (no_types, lifting) imageE list.set_map)
  moreover have "f \<noteq> ''length''" using f by (auto simp: requiredFields_def)
  ultimately show ?thesis by simp
qed

lemma every_pure: "(\<And>x. x \<in> set xs \<Longrightarrow> p x = Inr (q x)) \<Longrightarrow> every p xs = Inr (list_all q xs)"
  by (induction xs) auto

lemma field_ok_object:
  "map_of kvs ''hasOwnProperty'' = None \<Longrightarrow>
   field_ok (JObj kvs) f =
     Inr (case map_of kvs f of Some (JStr s) \<Rightarrow> s \<noteq> [] \<and> \<not> list_all is_white_space s
          | Some other \<Rightarrow> False | None \<Rightarrow> False)"
  by (auto simp: field_ok_def trim_Nil_iff split: option.splits jsval.splits)

lemma field_ok_shadowed:
  "map_of kvs ''hasOwnProperty'' = Some v \<Longrightarrow>
   field_ok (JObj kvs) f = Inl (TypeError ''classData.hasOwnProperty is not a function'')"
  by (simp add: field_ok_def)

lemma field_ok_array:
  "f \<in> set requiredFields \<Longrightarrow> field_ok (JArr xs) f = Inr False"
  using required_not_index [of f "[0..<length xs]"] by (simp add: field_ok_def)

lemma isValidClass_eq:
  "isValidClass v =
     (if shadows_hasOwnProperty v
      then Inl (TypeError ''classData.hasOwnProperty is not a function'')
      else Inr (record_shape v))"
proof (cases v)
  case (JObj kvs)
  show ?thesis
  proof (cases "map_of kvs ''hasOwnProperty''")
    case None
    then show ?thesis
      using every_pure [of requiredFields "field_ok (JObj kvs)", OF field_ok_object]
      by (simp add: JObj isValidClass_def shadows_hasOwnProperty_def record_shape_def)
  next
    case (Some a)
    then show ?thesis
      by (simp add: JObj isValidClass_def shadows_hasOwnProperty_def requiredFields_def
          field_ok_shadowed)
  qed
next
  case (JArr xs)
  have "every (field_ok (JArr xs)) requiredFields = Inr False"
    using field_ok_array [of "''name''" xs] by (simp add: requiredFields_def)
  then show ?thesis
    by (simp add: JArr isValidClass_def shadows_hasOwnProperty_def record_shape_def)
qed (simp_all add: isValidClass_def shadows_hasOwnProperty_def record_shape_def)

lemma array_filter_pure:
  "(\<And>x. x \<in> set xs \<Longrightarrow> p x = Inr (q x)) \<Longrightarrow> array_filter p xs = Inr (filter q xs)"
  by (induction xs) auto

lemma array_filter_throws:
  "x \<in> set xs \<Longrightarrow> p x = Inl e \<Longrightarrow> \<exists>e'. array_filter p xs = Inl e'"
  by (induction xs) (auto split: sum.splits)

lemma array_filter_Inr:
  "array_filter p xs = Inr ys \<Longrightarrow> ys = filter (\<lambda>x. p x = Inr True) xs \<and> (\<forall>x\<in>set xs. \<exists>b. p x = Inr b)"
  by (induction xs arbitrary: ys) (auto split: sum.splits if_splits)

section \<open>One attempt and the retry loop\<close>

lemma backoff_Suc: "d # backoff (d * 2) k = backoff d (Suc k)"
proof -
  have "[0..<Suc k] = 0 # map Suc [0..<k]"
    by (simp add: upt_conv_Cons map_Suc_upt del: upt_Suc)
  then show ?thesis
    by (simp add: backoff_def comp_def del: upt_Suc)
qed

lemma validateClasses_frame:
  "fetches (snd (validateClasses v s)) = fetches s \<and> waits (snd (validateClasses v s)) = waits s"
  by (simp add: validateClasses_def split: jsval.splits sum.splits)

lemma attempt_frame:
  "fetches (snd (attempt net s)) = fetches s + 1 \<and> waits (snd (attempt net s)) = waits s"
  by (simp add: attempt_def Let_def validateClasses_frame split: sum.splits option.splits)

lemma attempt_json:
  "json_response (net (fetches s)) v \<Longrightarrow>
   attempt net s = validateClasses v (s\<lparr>fetches := fetches s + 1\<rparr>)"
  by (auto simp: attempt_def json_response_def fetchWithTimeout_def Let_def
      split: fetch_outcome.splits option.splits)

lemma retry_success: "fn s = (Inr v, s') \<Longrightarrow> retry fn r d s = (Inr v, s')"
  by (simp add: retry.simps [of fn r d s])

lemma retry_last: "fn s = (Inl e, s') \<Longrightarrow> r \<le> 0 \<Longrightarrow> retry fn r d s = (Inl e, s')"
  by (simp add: retry.simps [of fn r d s])

lemma retry_again:
  "fn s = (Inl e, s') \<Longrightarrow> 0 < r \<Longrightarrow>
   retry fn r d s = retry fn (r - 1) (d * 2) (s'\<lparr>waits := waits s' @ [d]\<rparr>)"
  by (simp add: retry.simps [of fn r d s])

lemma retry_trace:
  "\<exists>k. int k \<le> max 0 r \<and>
       waits (snd (retry (attempt net) r d s)) = waits s @ backoff d k \<and>
       fetches (snd (retry (attempt net) r d s)) = fetches s + k + 1"
proof (induction "attempt net" r d s rule: retry.induct)
  case (1 r d s)
  obtain res s' where a: "attempt net s = (res, s')" by (cases "attempt net s")
  have fr: "fetches s' = fetches s + 1" "waits s' = waits s"
    using attempt_frame [of net s] a by simp_all
  show ?case
  proof (cases res)
    case (Inr v)
    then have "retry (attempt net) r d s = (Inr v, s')" using a by (simp add: retry_success)
    then show ?thesis using fr by (intro exI [of _ 0]) (simp add: backoff_def)
  next
    case (Inl e)
    show ?thesis
    proof (cases "r \<le> 0")
      case True
      then have "retry (attempt net) r d s = (Inl e, s')" using a Inl by (simp add: retry_last)
      then show ?thesis using fr by (intro exI [of _ 0]) (simp add: backoff_def)
    next
      case False
      let ?s1 = "s'\<lparr>waits := waits s' @ [d]\<rparr>"
      have eq: "retry (attempt net) r d s = retry (attempt net) (r - 1) (d * 2) ?s1"
        using a Inl False by (simp add: retry_again)
      from "1.hyps" [OF a [symmetric] Inl False]
      obtain k where k: "int k \<le> max 0 (r - 1)"
        "waits (snd (retry (attempt net) (r - 1) (d * 2) ?s1)) = waits ?s1 @ backoff (d * 2) k"
        "fetches (snd (retry (attempt net) (r - 1) (d * 2) ?s1)) = fetches ?s1 + k + 1"
        by blast
      have "waits ?s1 @ backoff (d * 2) k = waits s @ backoff d (Suc k)"
        using fr by (simp add: backoff_Suc)
      then show ?thesis
        using k eq fr False by (intro exI [of _ "Suc k"]) simp
    qed
  qed
qed

lemma retry_Inr:
  "fst (retry fn r d s) = Inr v \<Longrightarrow> \<exists>s0. fst (fn s0) = Inr v"
proof (induction fn r d s rule: retry.induct)
  case (1 fn r d s)
  obtain res s' where a: "fn s = (res, s')" by (cases "fn s")
  show ?case
  proof (cases res)
    case (Inr w)
    then have "retry fn r d s = (Inr w, s')" using a by (simp add: retry_success)
    with "1.prems" a Inr show ?thesis by (intro exI [of _ s]) simp
  next
    case (Inl e)
    show ?thesis
    proof (cases "r \<le> 0")
      case True
      then have "retry fn r d s = (Inl e, s')" using a Inl by (simp add: retry_last)
      with "1.prems" show ?thesis by simp
    next
      case False
      then have "retry fn r d s = retry fn (r - 1) (d * 2) (s'\<lparr>waits := waits s' @ [d]\<rparr>)"
        using a Inl by (simp add: retry_again)
      with "1.prems" "1.IH" [OF a [symmetric] Inl False] show ?thesis by simp
    qed
  qed
qed

lemma attempt_transient:
  "transient_failure (net (fetches s)) \<Longrightarrow> \<exists>e. attempt net s = (Inl e, s\<lparr>fetches := fetches s + 1\<rparr>)"
  by (auto simp: attempt_def transient_failure_def fetchWithTimeout_def Let_def
      split: fetch_outcome.splits)

lemma attempt_non_sequence:
  "json_response (net (fetches s)) v \<Longrightarrow> \<not> is_sequence v \<Longrightarrow>
   \<exists>e. attempt net s = (Inl e, s\<lparr>fetches := fetches s + 1\<rparr>)"
  by (auto simp: attempt_json validateClasses_def is_sequence_def split: jsval.splits)

lemma attempt_none_valid:
  assumes "json_response (net (fetches s)) (JArr xs)" and "\<forall>x\<in>set xs. \<not> record_shape x"
  shows "\<exists>e. attempt net s = (Inl e, s\<lparr>fetches := fetches s + 1\<rparr>)"
proof -
  have a: "attempt net s = validateClasses (JArr xs) (s\<lparr>fetches := fetches s + 1\<rparr>)"
    using assms(1) by (rule attempt_json)
  show ?thesis
  proof (cases "\<exists>x\<in>set xs. shadows_hasOwnProperty x")
    case True
    then obtain x where "x \<in> set xs" and "shadows_hasOwnProperty x" by blast
    then have "isValidClass x = Inl (TypeError ''classData.hasOwnProperty is not a function'')"
      by (simp add: isValidClass_eq)
    with \<open>x \<in> set xs\<close> obtain e where "array_filter isValidClass xs = Inl e"
      using array_filter_throws [of x xs isValidClass] by blast
    then show ?thesis unfolding a by (simp add: validateClasses_def)
  next
    case False
    then have "array_filter isValidClass xs = Inr (filter record_shape xs)"
      by (intro array_filter_pure) (simp add: isValidClass_eq)
    moreover have "filter record_shape xs = []" using assms(2) by (simp add: filter_empty_conv)
    ultimately show ?thesis unfolding a by (simp add: validateClasses_def)
  qed
qed

lemma retry_all_fail:
  "(\<And>s0. fetches s \<le> fetches s0 \<Longrightarrow> fetches s0 \<le> fetches s + nat r \<Longrightarrow>
         \<exists>e. attempt net s0 = (Inl e, s0\<lparr>fetches := fetches s0 + 1\<rparr>)) \<Longrightarrow>
   \<exists>e. retry (attempt net) r d s =
         (Inl e, s\<lparr>fetches := fetches s + nat r + 1, waits := waits s @ backoff d (nat r)\<rparr>)"
proof (induction "attempt net" r d s rule: retry.induct)
  case (1 r d s)
  define s' where "s' = s\<lparr>fetches := fetches s + 1\<rparr>"
  from "1.prems" [of s] obtain e where a: "attempt net s = (Inl e, s')"
    by (auto simp: s'_def)
  show ?case
  proof (cases "r \<le> 0")
    case True
    then have "retry (attempt net) r d s = (Inl e, s')" using retry_last [of "attempt net" s e s' r d] a by simp
    then show ?thesis using True by (simp add: s'_def backoff_def)
  next
    case False
    define s1 where "s1 = s'\<lparr>waits := waits s' @ [d]\<rparr>"
    have f1: "fetches s1 = fetches s + 1" and w1: "waits s1 = waits s @ [d]"
      by (simp_all add: s1_def s'_def)
    have eq: "retry (attempt net) r d s = retry (attempt net) (r - 1) (d * 2) s1"
      using retry_again [of "attempt net" s e s' r d] a False by (simp add: s1_def)
    have "\<exists>e. retry (attempt net) (r - 1) (d * 2) s1 =
         (Inl e, s1\<lparr>fetches := fetches s1 + nat (r - 1) + 1,
                     waits := waits s1 @ backoff (d * 2) (nat (r - 1))\<rparr>)"
      unfolding s1_def
    proof (rule "1.hyps" [OF a [symmetric] refl False])
      fix s0 :: io
      assume "fetches (s'\<lparr>waits := waits s' @ [d]\<rparr>) \<le> fetches s0"
        and "fetches s0 \<le> fetches (s'\<lparr>waits := waits s' @ [d]\<rparr>) + nat (r - 1)"
      then have "fetches s \<le> fetches s0" "fetches s0 \<le> fetches s + nat r"
        using False by (simp_all add: s'_def)
      then show "\<exists>e. attempt net s0 = (Inl e, s0\<lparr>fetches := fetches s0 + 1\<rparr>)"
        by (rule "1.prems")
    qed
    then obtain e' where r1: "retry (attempt net) (r - 1) (d * 2) s1 =
         (Inl e', s1\<lparr>fetches := fetches s1 + nat (r - 1) + 1,
                     waits := waits s1 @ backoff (d * 2) (nat (r - 1))\<rparr>)"
      by blast
    have n: "nat r = Suc (nat (r - 1))" using False by simp
    have b: "waits s1 @ backoff (d * 2) (nat (r - 1)) = waits s @ backoff d (nat r)"
      unfolding n w1 by (simp add: backoff_Suc)
    have c: "fetches s1 + nat (r - 1) + 1 = fetches s + nat r + 1"
      unfolding n f1 by simp
    have "s1\<lparr>fetches := fetches s + nat r + 1, waits := waits s @ backoff d (nat r)\<rparr> =
          s\<lparr>fetches := fetches s + nat r + 1, waits := waits s @ backoff d (nat r)\<rparr>"
      by (simp add: s1_def s'_def)
    with r1 eq show ?thesis unfolding b c by simp
  qed
qed

lemma getClasses_all_fail:
  assumes "\<And>s0. fetches s \<le> fetches s0 \<Longrightarrow> fetches s0 \<le> fetches s + nat maxRetries \<Longrightarrow>
         \<exists>e. attempt net s0 = (Inl e, s0\<lparr>fetches := fetches s0 + 1\<rparr>)"
  shows "fst (getClasses net s) = Inr [] \<and>
         fetches (snd (getClasses net s)) = fetches s + 1 + nat maxRetries \<and>
         waits (snd (getClasses net s)) = waits s @ backoff retryDelay (nat maxRetries)"
proof -
  from retry_all_fail [of s maxRetries net retryDelay, OF assms]
  obtain e where "retry (attempt net) maxRetries retryDelay s =
         (Inl e, s\<lparr>fetches := fetches s + nat maxRetries + 1,
                   waits := waits s @ backoff retryDelay (nat maxRetries)\<rparr>)"
    by blast
  then show ?thesis by (simp add: getClasses_def)
qed

lemma backoff_3: "backoff d 3 = [d, d * 2, d * 4]"
  by (simp add: backoff_def numeral_3_eq_3)

lemma offset_exists:
  fixes a b n :: nat
  assumes "a \<le> b" and "b \<le> a + n"
  shows "\<exists>i. b = a + i \<and> i \<le> n"
  using assms by (intro exI [of _ "b - a"]) simp

lemma attempt_Inr:
  "fst (attempt net s) = Inr records \<Longrightarrow>
   \<exists>elems. array_filter isValidClass elems = Inr records \<and> records \<noteq> []"
  by (auto simp: attempt_def validateClasses_def Let_def
      split: sum.splits if_splits option.splits jsval.splits)

lemma getClasses_Inr:
  assumes "fst (getClasses net s) = Inr records"
  shows "records = [] \<or> (\<exists>s0. fst (attempt net s0) = Inr records)"
proof (cases "retry (attempt net) maxRetries retryDelay s")
  case (Pair res s')
  show ?thesis
  proof (cases res)
    case (Inl e)
    with Pair assms show ?thesis by (simp add: getClasses_def)
  next
    case (Inr data)
    with Pair assms have "fst (retry (attempt net) maxRetries retryDelay s) = Inr records"
      by (simp add: getClasses_def)
    then have "\<exists>s0. fst (attempt net s0) = Inr records" by (rule retry_Inr)
    then show ?thesis by simp
  qed
qed

lemma getClasses_keeps_valid_records:
  assumes "json_response (net (fetches s)) (JArr xs)"
    and "\<forall>x\<in>set xs. \<not> shadows_hasOwnProperty x"
    and "filter record_shape xs \<noteq> []"
  shows "fst (getClasses net s) = Inr (filter record_shape xs) \<and>
         fetches (snd (getClasses net s)) = fetches s + 1 \<and>
         waits (snd (getClasses net s)) = waits s"
proof -
  let ?s1 = "s\<lparr>fetches := fetches s + 1\<rparr>"
  have a: "attempt net s = validateClasses (JArr xs) ?s1"
    using assms(1) by (rule attempt_json)
  have f: "array_filter isValidClass xs = Inr (filter record_shape xs)"
    using assms(2) by (intro array_filter_pure) (simp add: isValidClass_eq)
  define s' where "s' = snd (validateClasses (JArr xs) ?s1)"
  have "fst (validateClasses (JArr xs) ?s1) = Inr (filter record_shape xs)"
    using assms(3) by (simp add: validateClasses_def f)
  then have v: "validateClasses (JArr xs) ?s1 = (Inr (filter record_shape xs), s')"
    by (simp add: s'_def prod_eq_iff)
  have fr: "fetches s' = fetches s + 1" "waits s' = waits s"
    using validateClasses_frame [of "JArr xs" ?s1] by (simp_all add: s'_def)
  have "retry (attempt net) maxRetries retryDelay s = (Inr (filter record_shape xs), s')"
    using a v by (intro retry_success) simp
  then show ?thesis using fr by (simp add: getClasses_def)
qed

lemma backoff_nth: "i < k \<Longrightarrow> backoff d k ! i = d * 2 ^ i"
  by (simp add: backoff_def)

lemma backoff_length: "length (backoff d k) = k"
  by (simp add: backoff_def)

section \<open>Local storage\<close>

lemma json_roundtrip_undefined: "json_roundtrip v = JUndefined \<longleftrightarrow> v = JUndefined"
  by (cases v) simp_all

lemma json_roundtrip_idem: "json_roundtrip (json_roundtrip v) = json_roundtrip v"
proof (induction v)
  case (JArr xs)
  then show ?case by (simp add: json_roundtrip_undefined)
next
  case (JObj kvs)
  have keep: "filter (\<lambda>kv. snd kv \<noteq> JUndefined)
                (map (\<lambda>kv. (fst kv, json_roundtrip (snd kv)))
                   (filter (\<lambda>kv. snd kv \<noteq> JUndefined) kvs))
              = map (\<lambda>kv. (fst kv, json_roundtrip (snd kv)))
                   (filter (\<lambda>kv. snd kv \<noteq> JUndefined) kvs)"
    by (simp add: filter_id_conv json_roundtrip_undefined)
  have "\<And>kv. kv \<in> set kvs \<Longrightarrow> json_roundtrip (json_roundtrip (snd kv)) = json_roundtrip (snd kv)"
    using JObj.IH by (metis snds.intros)
  then show ?case by (simp add: keep)
qed simp_all

lemma roundtrip_array_fixed:
  assumes "json_roundtrip (JArr xs) = JArr xs" and "set ys \<subseteq> insert (JStr c) (set xs)"
  shows "json_roundtrip (JArr ys) = JArr ys"
proof -
  let ?f = "\<lambda>x. if x = JUndefined then JNull else json_roundtrip x"
  have "map ?f xs = map (\<lambda>x. x) xs"
    using assms(1) by simp
  then have fx: "\<And>x. x \<in> set xs \<Longrightarrow> ?f x = x"
    by (simp only: map_eq_conv)
  have "?f y = y" if "y \<in> set ys" for y
  proof (cases "y = JStr c")
    case True
    then show ?thesis by simp
  next
    case False
    with that assms(2) have "y \<in> set xs" by auto
    then show ?thesis by (rule fx)
  qed
  then have "map ?f ys = ys"
    by (simp add: map_idI)
  then show ?thesis by simp
qed

lemma stored_recent_cases:
  "stored_recent st = JArr [] \<or> (\<exists>v. stored_recent st = json_roundtrip v)"
  by (auto simp: stored_recent_def getItem_def isLocalStorageAvailable_def
      split: option.splits stored.splits)

lemma stored_recent_fixed:
  assumes "stored_recent st = JArr xs"
  shows "json_roundtrip (JArr xs) = JArr xs"
proof -
  from stored_recent_cases [of st] show ?thesis
  proof
    assume "stored_recent st = JArr []"
    with assms show ?thesis by simp
  next
    assume "\<exists>v. stored_recent st = json_roundtrip v"
    then obtain v where "JArr xs = json_roundtrip v" using assms by auto
    then show ?thesis using json_roundtrip_idem [of v] by simp
  qed
qed

section \<open>The claims\<close>

text \<open>
  Claim C1, as amended. A response whose parsed body is not a sequence makes the attempt
  fail like any other failure, and \<^verbatim>\<open>retry\<close> does not tell failures apart: when each of
  the \<open>1 + maxRetries\<close> requests gets such a response, \<^verbatim>\<open>getClasses\<close> returns an empty
  list after \<open>maxRetries\<close> retries, having waited the doubling backoff delays in between.
\<close>

theorem C1_non_sequence_body_is_retried:
  assumes "\<forall>i. i \<le> nat maxRetries \<longrightarrow>
             (\<exists>v. json_response (net (fetches s + i)) v \<and> \<not> is_sequence v)"
  shows "fst (getClasses net s) = Inr [] \<and>
         fetches (snd (getClasses net s)) = fetches s + 1 + nat maxRetries \<and>
         waits (snd (getClasses net s)) = waits s @ backoff retryDelay (nat maxRetries)"
proof (rule getClasses_all_fail)
  fix s0 :: io
  assume "fetches s \<le> fetches s0" and "fetches s0 \<le> fetches s + nat maxRetries"
  then obtain i where i: "fetches s0 = fetches s + i" "i \<le> nat maxRetries"
    using offset_exists by blast
  with assms obtain v where "json_response (net (fetches s0)) v" "\<not> is_sequence v"
    by auto
  then show "\<exists>e. attempt net s0 = (Inl e, s0\<lparr>fetches := fetches s0 + 1\<rparr>)"
    by (rule attempt_non_sequence)
qed

theorem C1_witness:
  "fst (getClasses (script [] (json_ok (JStr ''maintenance''))) start) = Inr [] \<and>
   fetches (snd (getClasses (script [] (json_ok (JStr ''maintenance''))) start)) = 4 \<and>
   waits (snd (getClasses (script [] (json_ok (JStr ''maintenance''))) start))
     = [1000, 2000, 4000]"
proof -
  have h: "\<forall>i. i \<le> nat maxRetries \<longrightarrow>
             (\<exists>v. json_response (script [] (json_ok (JStr ''maintenance'')) (fetches start + i)) v
                  \<and> \<not> is_sequence v)"
    by (simp add: script_def json_ok_def json_response_def ok_def is_sequence_def)
  show ?thesis
    using C1_non_sequence_body_is_retried [OF h]
    by (simp add: start_def maxRetries_def retryDelay_def backoff_3)
qed

text \<open>
  Claim C1 as stated fails: with a response whose body is an object, \<^verbatim>\<open>getClasses\<close>
  issues four requests and waits 1000, 2000 and 4000 ms.
\<close>

theorem C1_counterexample:
  "json_response (json_ok (JObj [])) (JObj []) \<and> \<not> is_sequence (JObj []) \<and>
   fst (getClasses (script [] (json_ok (JObj []))) start) = Inr [] \<and>
   fetches (snd (getClasses (script [] (json_ok (JObj []))) start)) = 4 \<and>
   waits (snd (getClasses (script [] (json_ok (JObj []))) start)) = [1000, 2000, 4000]"
  by code_simp

text \<open>
  Claim C2, as amended. A response whose body is a sequence with no element of the Record
  shape makes the attempt fail like any other failure: when each of the \<open>1 + maxRetries\<close>
  requests gets such a response, \<^verbatim>\<open>getClasses\<close> returns an empty list after
  \<open>maxRetries\<close> retries, having waited the doubling backoff delays in between.
\<close>

theorem C2_no_valid_record_is_retried:
  assumes "\<forall>i. i \<le> nat maxRetries \<longrightarrow>
             (\<exists>xs. json_response (net (fetches s + i)) (JArr xs) \<and>
                   (\<forall>x\<in>set xs. \<not> record_shape x))"
  shows "fst (getClasses net s) = Inr [] \<and>
         fetches (snd (getClasses net s)) = fetches s + 1 + nat maxRetries \<and>
         waits (snd (getClasses net s)) = waits s @ backoff retryDelay (nat maxRetries)"
proof (rule getClasses_all_fail)
  fix s0 :: io
  assume "fetches s \<le> fetches s0" and "fetches s0 \<le> fetches s + nat maxRetries"
  then obtain i where i: "fetches s0 = fetches s + i" "i \<le> nat maxRetries"
    using offset_exists by blast
  with assms obtain xs where "json_response (net (fetches s0)) (JArr xs)"
    "\<forall>x\<in>set xs. \<not> record_shape x"
    by auto
  then show "\<exists>e. attempt net s0 = (Inl e, s0\<lparr>fetches := fetches s0 + 1\<rparr>)"
    by (rule attempt_none_valid)
qed

theorem C2_witness:
  "fst (getClasses (script [] (json_ok (JArr [unfinished_class, JNum 7]))) start) = Inr [] \<and>
   fetches (snd (getClasses (script [] (json_ok (JArr [unfinished_class, JNum 7]))) start)) = 4 \<and>
   waits (snd (getClasses (script [] (json_ok (JArr [unfinished_class, JNum 7]))) start))
     = [1000, 2000, 4000]"
proof -
  have shape: "\<not> record_shape unfinished_class" "\<not> record_shape (JNum 7)"
    by (simp_all add: record_shape_def unfinished_class_def requiredFields_def)
  have h: "\<forall>i. i \<le> nat maxRetries \<longrightarrow>
             (\<exists>xs. json_response
                     (script [] (json_ok (JArr [unfinished_class, JNum 7])) (fetches start + i))
                     (JArr xs) \<and>
                   (\<forall>x\<in>set xs. \<not> record_shape x))"
    using shape by (simp add: script_def json_ok_def json_response_def ok_def)
  show ?thesis
    using C2_no_valid_record_is_retried [OF h]
    by (simp add: start_def maxRetries_def retryDelay_def backoff_3)
qed

text \<open>
  Claim C2 as stated fails: with a response whose body is a sequence holding one
  unfinished record, \<^verbatim>\<open>getClasses\<close> issues four requests and waits 1000, 2000 and
  4000 ms.
\<close>

theorem C2_counterexample:
  "json_response (json_ok (JArr [unfinished_class])) (JArr [unfinished_class]) \<and>
   filter record_shape [unfinished_class] = [] \<and>
   fst (getClasses (script [] (json_ok (JArr [unfinished_class]))) start) = Inr [] \<and>
   fetches (snd (getClasses (script [] (json_ok (JArr [unfinished_class]))) start)) = 4 \<and>
   waits (snd (getClasses (script [] (json_ok (JArr [unfinished_class]))) start))
     = [1000, 2000, 4000]"
  by code_simp

text \<open>
  Claim C3. Whatever the network does, \<^verbatim>\<open>getClasses\<close> settles with a list and never
  with an error; whenever the retry loop ends in a failure, that list is empty.
\<close>

theorem C3_never_raises:
  "(\<exists>records. fst (getClasses net s) = Inr records) \<and>
   (\<forall>error. fst (retry (attempt net) maxRetries retryDelay s) = Inl error \<longrightarrow>
      fst (getClasses net s) = Inr [])"
proof (cases "retry (attempt net) maxRetries retryDelay s")
  case (Pair res s')
  then show ?thesis by (cases res) (simp_all add: getClasses_def)
qed

theorem C3_witness:
  "fst (retry (attempt (script [timed_out, http_error 503] (FetchFails (TypeError ''Failed to fetch''))))
         maxRetries retryDelay start) = Inl (TypeError ''Failed to fetch'') \<and>
   fst (getClasses (script [timed_out, http_error 503] (FetchFails (TypeError ''Failed to fetch'')))
         start) = Inr []"
proof -
  have h: "fst (retry (attempt (script [timed_out, http_error 503]
                (FetchFails (TypeError ''Failed to fetch'')))) maxRetries retryDelay start)
           = Inl (TypeError ''Failed to fetch'')"
    by code_simp
  show ?thesis
    using C3_never_raises [of "script [timed_out, http_error 503]
        (FetchFails (TypeError ''Failed to fetch''))" start] h
    by simp
qed

text \<open>
  Claim C4. Every element of the list that \<^verbatim>\<open>getClasses\<close> returns has the Record shape:
  an object with the keys name, type, duration, level and trainer, each a text that is not
  empty and not white space only.
\<close>

theorem C4_only_valid_records:
  assumes "fst (getClasses net s) = Inr records"
  shows "\<forall>x\<in>set records. record_shape x"
proof
  fix x assume x: "x \<in> set records"
  then have "records \<noteq> []" by auto
  with getClasses_Inr [OF assms] obtain s0 where "fst (attempt net s0) = Inr records" by blast
  then obtain elems where "array_filter isValidClass elems = Inr records"
    using attempt_Inr by blast
  then have "records = filter (\<lambda>x. isValidClass x = Inr True) elems"
    using array_filter_Inr by blast
  with x have "isValidClass x = Inr True" by simp
  then show "record_shape x" by (simp add: isValidClass_eq split: if_splits)
qed

theorem C4_witness:
  "fst (getClasses (script [timed_out]
          (json_ok (JArr [yoga_class, unfinished_class, JNull, spin_class]))) start)
     = Inr [yoga_class, spin_class] \<and>
   record_shape yoga_class \<and> record_shape spin_class"
proof -
  have h: "fst (getClasses (script [timed_out]
          (json_ok (JArr [yoga_class, unfinished_class, JNull, spin_class]))) start)
     = Inr [yoga_class, spin_class]"
    by code_simp
  show ?thesis
    using C4_only_valid_records [OF h] h by simp
qed

text \<open>
  Claim C5 at a failing input. The body holds a valid record and an entry with an own
  property named \<^verbatim>\<open>hasOwnProperty\<close>; the claim asks for the valid record alone, from one
  request. The call \<^verbatim>\<open>classData.hasOwnProperty(field)\<close> throws on the second entry,
  the attempt fails, and after three retries \<^verbatim>\<open>getClasses\<close> returns an empty list.
  Lemma \<open>getClasses_keeps_valid_records\<close> gives what the code does when no entry shadows
  \<^verbatim>\<open>hasOwnProperty\<close>.
\<close>

theorem C5_failing_input:
  "record_shape yoga_class \<and> \<not> record_shape shadowing_entry \<and>
   fst (getClasses (script [] (json_ok (JArr [yoga_class, shadowing_entry]))) start) = Inr [] \<and>
   fetches (snd (getClasses (script [] (json_ok (JArr [yoga_class, shadowing_entry]))) start)) = 4 \<and>
   waits (snd (getClasses (script [] (json_ok (JArr [yoga_class, shadowing_entry]))) start))
     = [1000, 2000, 4000]"
  by code_simp

text \<open>
  Claim C6. In every run of the retry loop the delays waited are the delays of this run
  alone, one before each retry (each request after the first); the first delay is
  \<open>initialDelayMs\<close> and each later one is exactly twice the one before it.
\<close>

theorem C6_backoff_doubles:
  "let s' = snd (retry (attempt net) retries initialDelayMs s);
       ws = drop (length (waits s)) (waits s')
   in waits s' = waits s @ ws \<and>
      Suc (length ws) = fetches s' - fetches s \<and>
      (2 \<le> length ws \<longrightarrow>
         ws ! 0 = initialDelayMs \<and>
         (\<forall>i. Suc i < length ws \<longrightarrow> ws ! Suc i = 2 * (ws ! i)))"
proof -
  obtain k where k:
    "waits (snd (retry (attempt net) retries initialDelayMs s)) = waits s @ backoff initialDelayMs k"
    "fetches (snd (retry (attempt net) retries initialDelayMs s)) = fetches s + k + 1"
    using retry_trace [of retries net initialDelayMs s] by blast
  have ws: "drop (length (waits s)) (waits (snd (retry (attempt net) retries initialDelayMs s)))
            = backoff initialDelayMs k"
    by (simp add: k(1))
  have step: "\<forall>i. Suc i < k \<longrightarrow> backoff initialDelayMs k ! Suc i = 2 * (backoff initialDelayMs k ! i)"
    by (simp add: backoff_nth)
  have first: "2 \<le> k \<longrightarrow> backoff initialDelayMs k ! 0 = initialDelayMs"
    by (simp add: backoff_nth)
  show ?thesis
    unfolding Let_def ws using k step first by (simp add: backoff_length)
qed

theorem C6_witness:
  "waits (snd (retry (attempt (script [] timed_out)) 3 1000 start)) = [1000, 2000, 4000] \<and>
   fetches (snd (retry (attempt (script [] timed_out)) 3 1000 start)) = 4 \<and>
   waits (snd (retry (attempt (script [] timed_out)) 3 1000 start)) ! 1
     = 2 * (waits (snd (retry (attempt (script [] timed_out)) 3 1000 start)) ! 0)"
proof -
  have h: "waits (snd (retry (attempt (script [] timed_out)) 3 1000 start)) = [1000, 2000, 4000]"
    "fetches (snd (retry (attempt (script [] timed_out)) 3 1000 start)) = 4"
    by code_simp+
  show ?thesis
    using C6_backoff_doubles [of "script [] timed_out" 3 1000 start] h
    by (simp add: Let_def start_def)
qed

text \<open>
  Claim C7. When every attempt ends in a timeout or in a response with a non-2xx status,
  \<^verbatim>\<open>getClasses\<close> issues \<open>maxRetries\<close> requests after the first one and then returns an
  empty list.
\<close>

theorem C7_transient_failures_exhaust_retries:
  assumes "\<forall>i. i \<le> nat maxRetries \<longrightarrow> transient_failure (net (fetches s + i))"
  shows "fst (getClasses net s) = Inr [] \<and>
         fetches (snd (getClasses net s)) = fetches s + 1 + nat maxRetries"
proof -
  have "fst (getClasses net s) = Inr [] \<and>
         fetches (snd (getClasses net s)) = fetches s + 1 + nat maxRetries \<and>
         waits (snd (getClasses net s)) = waits s @ backoff retryDelay (nat maxRetries)"
  proof (rule getClasses_all_fail)
    fix s0 :: io
    assume "fetches s \<le> fetches s0" and "fetches s0 \<le> fetches s + nat maxRetries"
    then obtain i where i: "fetches s0 = fetches s + i" "i \<le> nat maxRetries"
      using offset_exists by blast
    with assms have "transient_failure (net (fetches s0))" by simp
    then show "\<exists>e. attempt net s0 = (Inl e, s0\<lparr>fetches := fetches s0 + 1\<rparr>)"
      by (rule attempt_transient)
  qed
  then show ?thesis by simp
qed

theorem C7_witness:
  "fst (getClasses (script [timed_out, http_error 503, http_error 404] timed_out) start) = Inr [] \<and>
   fetches (snd (getClasses (script [timed_out, http_error 503, http_error 404] timed_out) start))
     = 4"
proof -
  have h: "\<forall>i. i \<le> nat maxRetries \<longrightarrow>
     transient_failure
       (script [timed_out, http_error 503, http_error 404] timed_out (fetches start + i))"
    by (simp add: script_def transient_failure_def timed_out_def http_error_def ok_def nth_Cons
        split: nat.split)
  show ?thesis
    using C7_transient_failures_exhaust_retries [OF h]
    by (simp add: start_def maxRetries_def)
qed

text \<open>
  Claim C8, as amended. When the first response succeeds with JSON content whose body is a
  sequence that is not empty, in which every element has the Record shape and none has an
  own property named \<^verbatim>\<open>hasOwnProperty\<close>, \<^verbatim>\<open>getClasses\<close> returns that sequence
  unmodified from a single request, with no backoff delay.
\<close>

theorem C8_valid_sequence_returned_unmodified:
  assumes "json_response (net (fetches s)) (JArr xs)"
    and "xs \<noteq> []"
    and "\<forall>x\<in>set xs. record_shape x \<and> \<not> shadows_hasOwnProperty x"
  shows "fst (getClasses net s) = Inr xs \<and>
         fetches (snd (getClasses net s)) = fetches s + 1 \<and>
         waits (snd (getClasses net s)) = waits s"
proof -
  have "filter record_shape xs = xs" using assms(3) by (simp add: filter_id_conv)
  with getClasses_keeps_valid_records [of net s xs] assms show ?thesis by simp
qed

theorem C8_witness:
  "fst (getClasses (script [] (json_ok (JArr [yoga_class, spin_class]))) start)
     = Inr [yoga_class, spin_class] \<and>
   fetches (snd (getClasses (script [] (json_ok (JArr [yoga_class, spin_class]))) start)) = 1 \<and>
   waits (snd (getClasses (script [] (json_ok (JArr [yoga_class, spin_class]))) start)) = []"
proof -
  have h1: "json_response (script [] (json_ok (JArr [yoga_class, spin_class])) (fetches start))
              (JArr [yoga_class, spin_class])"
    by (simp add: script_def json_ok_def json_response_def ok_def)
  have h2: "[yoga_class, spin_class] \<noteq> []" by simp
  have h3: "\<forall>x\<in>set [yoga_class, spin_class]. record_shape x \<and> \<not> shadows_hasOwnProperty x"
    by (simp add: record_shape_def shadows_hasOwnProperty_def yoga_class_def spin_class_def
        requiredFields_def is_white_space_def)
  show ?thesis
    using C8_valid_sequence_returned_unmodified
      [of "script [] (json_ok (JArr [yoga_class, spin_class]))" start "[yoga_class, spin_class]",
       OF h1 h2 h3]
    by (simp add: start_def)
qed

text \<open>
  Claim C8 as stated fails on the empty sequence, in which every element has the Record
  shape: \<^verbatim>\<open>validateClasses\<close> throws for it, and \<^verbatim>\<open>getClasses\<close> issues four requests
  and waits 1000, 2000 and 4000 ms.
\<close>

theorem C8_counterexample:
  "json_response (json_ok (JArr [])) (JArr []) \<and>
   list_all record_shape [] \<and>
   fst (getClasses (script [] (json_ok (JArr []))) start) = Inr [] \<and>
   fetches (snd (getClasses (script [] (json_ok (JArr []))) start)) = 4 \<and>
   waits (snd (getClasses (script [] (json_ok (JArr []))) start)) = [1000, 2000, 4000]"
  by code_simp

text \<open>
  Claim C9. \<^verbatim>\<open>filterByType\<close>, \<^verbatim>\<open>filterByLevel\<close> and \<^verbatim>\<open>filterByTrainer\<close> return
  their input collection itself when the filter argument is absent, the empty string or
  the string \<^verbatim>\<open>all\<close>; \<^verbatim>\<open>searchClasses\<close> returns its input collection itself when the
  query is absent, empty or white space only.
\<close>

theorem C9_filters_identity:
  "filterByType classes JUndefined = Inr classes \<and>
   filterByType classes (JStr []) = Inr classes \<and>
   filterByType classes (JStr ''all'') = Inr classes \<and>
   filterByLevel classes JUndefined = Inr classes \<and>
   filterByLevel classes (JStr []) = Inr classes \<and>
   filterByLevel classes (JStr ''all'') = Inr classes \<and>
   filterByTrainer classes JUndefined = Inr classes \<and>
   filterByTrainer classes (JStr []) = Inr classes \<and>
   filterByTrainer classes (JStr ''all'') = Inr classes \<and>
   searchClasses classes JUndefined = Inr classes \<and>
   searchClasses classes (JStr []) = Inr classes \<and>
   (list_all is_white_space query \<longrightarrow> searchClasses classes (JStr query) = Inr classes)"
  by (simp add: filterByType_def filterByLevel_def filterByTrainer_def searchClasses_def
      trim_Nil_iff)

theorem C9_witness:
  "searchClasses (JArr [yoga_class, JNull]) (JStr [CHR '' '', CHR 0x09, CHR '' ''])
     = Inr (JArr [yoga_class, JNull]) \<and>
   filterByTrainer (JArr [yoga_class, JNull]) (JStr ''all'') = Inr (JArr [yoga_class, JNull])"
proof -
  have h: "list_all is_white_space [CHR '' '', CHR 0x09, CHR '' '']"
    by (simp add: is_white_space_def)
  show ?thesis
    using C9_filters_identity [of "JArr [yoga_class, JNull]" "[CHR '' '', CHR 0x09, CHR '' '']"] h
    by simp
qed

text \<open>
  Claim C10, as amended. For a non-empty string \<open>className\<close>, when the store is available
  and takes the write, after \<^verbatim>\<open>addRecentClass(className)\<close> the stored list is the prior
  list without \<open>className\<close>, with \<open>className\<close> put in front, cut to its first
  \<open>MAX_RECENT_ITEMS\<close> entries: \<open>className\<close> is its first element and occurs once, the
  length is at most \<open>MAX_RECENT_ITEMS\<close>, and the list has no duplicates whenever the
  prior list had none.
\<close>

theorem C10_recent_list_after_add:
  assumes "className \<noteq> []"
    and "available st"
    and "\<forall>v. accepts st recentClasses v"
    and "stored_recent st = JArr prior"
  shows "fst (addRecentClass (JStr className) st) = Inr () \<and>
         (\<exists>recent. stored_recent (snd (addRecentClass (JStr className) st)) = JArr recent \<and>
            recent = take MAX_RECENT_ITEMS
                       (JStr className # filter (\<lambda>item. item \<noteq> JStr className) prior) \<and>
            hd recent = JStr className \<and>
            count_list recent (JStr className) = 1 \<and>
            length recent \<le> MAX_RECENT_ITEMS \<and>
            (distinct prior \<longrightarrow> distinct recent))"
proof -
  define added where "added = JStr className # filter (\<lambda>item. item \<noteq> JStr className) prior"
  define recent where "recent = take MAX_RECENT_ITEMS added"
  define st1 where "st1 = snd (getItem recentClasses (JArr []) st)"
  have g: "getItem recentClasses (JArr []) st = (JArr prior, st1)"
    using assms(4) by (simp add: stored_recent_def st1_def prod_eq_iff)
  have st1: "available st1" "accepts st1 = accepts st"
    using assms(2)
    by (simp_all add: st1_def getItem_def isLocalStorageAvailable_def
        split: option.splits stored.splits)
  have fixed: "json_roundtrip (JArr recent) = JArr recent"
  proof (rule roundtrip_array_fixed)
    show "json_roundtrip (JArr prior) = JArr prior" using assms(4) by (rule stored_recent_fixed)
    show "set recent \<subseteq> insert (JStr className) (set prior)"
      using set_take_subset [of MAX_RECENT_ITEMS added] by (auto simp: recent_def added_def)
  qed
  have a: "addRecentClass (JStr className) st =
             (Inr (), snd (setItem recentClasses (JArr recent) st1))"
    using assms(1) by (auto simp: addRecentClass_def g Let_def recent_def added_def)
  have s: "stored_recent (snd (addRecentClass (JStr className) st)) = JArr recent"
    using assms(3) st1 fixed
    by (simp add: a setItem_def isLocalStorageAvailable_def stored_recent_def getItem_def
        stringify_def recentClasses_def)
  have h: "hd recent = JStr className"
    by (simp add: recent_def added_def MAX_RECENT_ITEMS_def)
  have "count_list added (JStr className) = 1"
    by (simp add: added_def count_list_0_iff)
  moreover have "take MAX_RECENT_ITEMS added =
                 JStr className # take 9 (filter (\<lambda>item. item \<noteq> JStr className) prior)"
    by (simp add: added_def MAX_RECENT_ITEMS_def take_Cons')
  ultimately have c: "count_list recent (JStr className) = 1"
    using set_take_subset [of 9 "filter (\<lambda>item. item \<noteq> JStr className) prior"]
    by (auto simp: recent_def count_list_0_iff)
  have l: "length recent \<le> MAX_RECENT_ITEMS" by (simp add: recent_def)
  have d: "distinct prior \<longrightarrow> distinct recent"
    by (simp add: recent_def added_def)
  show ?thesis using a s h c l d by (simp add: recent_def added_def)
qed

theorem C10_witness:
  "stored_recent (snd (addRecentClass (JStr ''Yoga'')
      (storage_holding (Some (Text (JArr [JStr ''Cardio'', JStr ''Yoga'', JStr ''HIIT'']))))))
     = JArr [JStr ''Yoga'', JStr ''Cardio'', JStr ''HIIT'']"
proof -
  have h1: "''Yoga'' \<noteq> []" by simp
  have h2: "available (storage_holding (Some (Text (JArr [JStr ''Cardio'', JStr ''Yoga'', JStr ''HIIT'']))))"
    by (simp add: storage_holding_def)
  have h3: "\<forall>v. accepts (storage_holding (Some (Text (JArr [JStr ''Cardio'', JStr ''Yoga'', JStr ''HIIT''])))) recentClasses v"
    by (simp add: storage_holding_def)
  have h4: "stored_recent (storage_holding (Some (Text (JArr [JStr ''Cardio'', JStr ''Yoga'', JStr ''HIIT'']))))
            = JArr [JStr ''Cardio'', JStr ''Yoga'', JStr ''HIIT'']"
    by code_simp
  show ?thesis
    using C10_recent_list_after_add [OF h1 h2 h3 h4]
    by (simp add: MAX_RECENT_ITEMS_def)
qed

text \<open>
  Claim C10 as stated fails for a prior list that holds a duplicate, as
  \<^verbatim>\<open>importData\<close> can store one: the duplicate of another entry stays in the list.
\<close>

theorem C10_counterexample:
  "stored_recent (storage_holding (Some (Text (JArr [JStr ''Yoga'', JStr ''Yoga''])))) =
     JArr [JStr ''Yoga'', JStr ''Yoga''] \<and>
   stored_recent (snd (addRecentClass (JStr ''Cardio'')
      (storage_holding (Some (Text (JArr [JStr ''Yoga'', JStr ''Yoga'']))))))
     = JArr [JStr ''Cardio'', JStr ''Yoga'', JStr ''Yoga''] \<and>
   \<not> distinct [JStr ''Cardio'', JStr ''Yoga'', JStr ''Yoga'']"
  by code_simp

end
